theory Spec2Isabelle
  imports Main "HOL-Library.Char_ord" "HOL-Library.List_Lexorder" "HOL-Library.Multiset"
begin

section \<open>Data model\<close>

text \<open>
  The message store of \<^verbatim>\<open>utils.py\<close> is one JSON file that holds an array of
  dictionaries. A dictionary is kept as an association list in insertion order, read
  with \<open>map_of\<close>. The values of its fields are the two kinds the program itself writes:
  text, or \<^verbatim>\<open>None\<close> (the \<^verbatim>\<open>call_id\<close> of a request that came without the header).
  Numbers, booleans and nested containers as field values are outside this model.
  Text is a list of bytes (the UTF-8 encoding); the lexicographic order on bytes is the
  order of Python's \<^verbatim>\<open>str\<close> on the code points.
\<close>

datatype field = FNull | FStr string

type_synonym pydict = "(string \<times> field) list"

text \<open>
  An element of the stored array is a dictionary or some other JSON value. Every other
  JSON value behaves in one way in this program: it has no \<^verbatim>\<open>get\<close> method.
\<close>

datatype elem = Dict pydict | NonDict

text \<open>What \<^verbatim>\<open>json.load\<close> returns: an array, or a JSON value that is no array.\<close>

datatype parsed = PList "elem list" | PNonList

text \<open>
  A file is absent, or holds text that \<^verbatim>\<open>json.load\<close> rejects (also bytes that are
  no UTF-8), or holds text that it parses.
\<close>

datatype contents = Absent | Invalid | Valid parsed

text \<open>
  Faults of the file system: opening for reading may be refused; opening for writing may be
  refused (the file is left as it was), or the write may break off after the file was
  truncated (a proper prefix of the text of a JSON array is left, which does not parse).
\<close>

datatype wfault = WriteOk | OpenDenied | WriteInterrupted

record disk =
  files :: "string \<Rightarrow> contents"
  read_denied :: bool
  write_fault :: wfault

datatype exn =
  JSONDecodeError | OSError | AttributeError | TypeError | KeyError
  | ValidationError | ServiceError

datatype message = SystemMessage string | HumanMessage string | AIMessage string

section \<open>Library operations used by the program\<close>

text \<open>\<^verbatim>\<open>d.get(k, default)\<close> on a dictionary.\<close>

definition dict_get :: "pydict \<Rightarrow> string \<Rightarrow> field \<Rightarrow> field" where
  "dict_get d k dflt = (case map_of d k of None \<Rightarrow> dflt | Some v \<Rightarrow> v)"

text \<open>\<^verbatim>\<open>x.get(k, default)\<close> on an element of the array.\<close>

definition elem_get :: "elem \<Rightarrow> string \<Rightarrow> field \<Rightarrow> exn + field" where
  "elem_get x k dflt = (case x of Dict d \<Rightarrow> Inr (dict_get d k dflt) | NonDict \<Rightarrow> Inl AttributeError)"

text \<open>\<^verbatim>\<open>x[k]\<close> on an element of the array.\<close>

definition elem_item :: "elem \<Rightarrow> string \<Rightarrow> exn + field" where
  "elem_item x k =
     (case x of
        Dict d \<Rightarrow> (case map_of d k of None \<Rightarrow> Inl KeyError | Some v \<Rightarrow> Inr v)
      | NonDict \<Rightarrow> Inl TypeError)"

text \<open>
  \<^verbatim>\<open>with open(filename, "w", encoding="utf-8") as f: json.dump(xs, f, ...)\<close>.
  The values of this model always serialise, so only the file system can fail.
\<close>

definition write_json :: "string \<Rightarrow> elem list \<Rightarrow> disk \<Rightarrow> (exn + unit) \<times> disk" where
  "write_json filename xs d =
     (case write_fault d of
        WriteOk \<Rightarrow> (Inr (), d\<lparr>files := (files d)(filename := Valid (PList xs))\<rparr>)
      | OpenDenied \<Rightarrow> (Inl OSError, d)
      | WriteInterrupted \<Rightarrow> (Inl OSError, d\<lparr>files := (files d)(filename := Invalid)\<rparr>))"

text \<open>\<^verbatim>\<open>with open(filename, "r", encoding="utf-8") as f: json.load(f)\<close>.\<close>

definition read_json :: "string \<Rightarrow> disk \<Rightarrow> exn + parsed" where
  "read_json filename d =
     (if read_denied d then Inl OSError
      else case files d filename of
             Absent \<Rightarrow> Inl OSError
           | Invalid \<Rightarrow> Inl JSONDecodeError
           | Valid p \<Rightarrow> Inr p)"

text \<open>
  \<^verbatim>\<open>all_messages.sort(key=lambda x: x.get('timestamp', ''))\<close>. Python computes the key
  of every element first, so an element without \<^verbatim>\<open>get\<close> raises whatever the length.
  Then the keys are compared with \<^verbatim>\<open><\<close>: two texts compare, a comparison with
  \<^verbatim>\<open>None\<close> on either side raises TypeError, and with two elements or more every key
  takes part in a comparison. The sort is stable, as \<open>sort_key\<close> is.
\<close>

fun timestamp_keys :: "elem list \<Rightarrow> exn + field list" where
  "timestamp_keys [] = Inr []"
| "timestamp_keys (x # xs) =
     (case elem_get x ''timestamp'' (FStr '''') of
        Inl e \<Rightarrow> Inl e
      | Inr k \<Rightarrow> (case timestamp_keys xs of Inl e \<Rightarrow> Inl e | Inr ks \<Rightarrow> Inr (k # ks)))"

definition key_text :: "elem \<Rightarrow> string" where
  "key_text x =
     (case x of
        Dict d \<Rightarrow> (case dict_get d ''timestamp'' (FStr '''') of FStr s \<Rightarrow> s | FNull \<Rightarrow> '''')
      | NonDict \<Rightarrow> '''')"

definition sort_by_timestamp :: "elem list \<Rightarrow> exn + elem list" where
  "sort_by_timestamp xs =
     (case timestamp_keys xs of
        Inl e \<Rightarrow> Inl e
      | Inr ks \<Rightarrow>
          if 2 \<le> length xs \<and> FNull \<in> set ks then Inl TypeError
          else Inr (sort_key key_text xs))"

text \<open>
  The slice \<^verbatim>\<open>xs[start:]\<close> for an integer \<open>start\<close>: a negative start counts from the
  end and is clipped at the first element, a start beyond the end gives the empty list.
\<close>

definition slice_from :: "int \<Rightarrow> 'a list \<Rightarrow> 'a list" where
  "slice_from start xs =
     (if start < 0 then drop (nat (int (length xs) + start)) xs else drop (nat start) xs)"

section \<open>The message store: \<^verbatim>\<open>utils.py\<close>\<close>

definition messages_json :: string where
  "messages_json = ''messages.json''"

definition default_limit :: int where
  "default_limit = 10"

text \<open>The body of the \<^verbatim>\<open>try\<close> block of \<^verbatim>\<open>load_messages\<close>.\<close>

definition load_messages_try :: "string \<Rightarrow> int \<Rightarrow> disk \<Rightarrow> (exn + elem list) \<times> disk" where
  "load_messages_try filename limit d =
     (if files d filename = Absent then
        (case write_json filename [] d of
           (Inl e, d') \<Rightarrow> (Inl e, d')
         | (Inr _, d') \<Rightarrow> (Inr [], d'))
      else
        (case read_json filename d of
           Inl e \<Rightarrow> (Inl e, d)
         | Inr PNonList \<Rightarrow> (Inl AttributeError, d)
         | Inr (PList all_messages) \<Rightarrow>
             (case sort_by_timestamp all_messages of
                Inl e \<Rightarrow> (Inl e, d)
              | Inr sorted_messages \<Rightarrow>
                  (Inr (if int (length sorted_messages) > limit
                        then slice_from (- limit) sorted_messages
                        else sorted_messages), d))))"

text \<open>
  \<^verbatim>\<open>load_messages\<close>: the two handlers, for JSONDecodeError and for every other
  exception, both return the empty list. The result type keeps the exception case, so that
  "nothing is raised" is a statement about the function and not about its type.
\<close>

definition load_messages :: "string \<Rightarrow> int \<Rightarrow> disk \<Rightarrow> (exn + elem list) \<times> disk" where
  "load_messages filename limit d =
     (case load_messages_try filename limit d of
        (Inl JSONDecodeError, d') \<Rightarrow> (Inr [], d')
      | (Inl _, d') \<Rightarrow> (Inr [], d')
      | (Inr recent_messages, d') \<Rightarrow> (Inr recent_messages, d'))"

text \<open>
  The record as \<^verbatim>\<open>save_message\<close> writes it: the clock's reading \<open>now\<close>
  (\<^verbatim>\<open>datetime.now().isoformat()\<close>) is stored under \<^verbatim>\<open>'timestamp'\<close> when the
  dictionary has no such key.
\<close>

definition add_timestamp :: "string \<Rightarrow> pydict \<Rightarrow> pydict" where
  "add_timestamp now message_data =
     (if map_of message_data ''timestamp'' = None
      then message_data @ [(''timestamp'', FStr now)]
      else message_data)"

definition save_message_try :: "string \<Rightarrow> pydict \<Rightarrow> string \<Rightarrow> disk \<Rightarrow> (exn + bool) \<times> disk" where
  "save_message_try now message_data filename d =
     (case load_messages filename default_limit d of
        (Inl e, d1) \<Rightarrow> (Inl e, d1)
      | (Inr messages, d1) \<Rightarrow>
          (case write_json filename (messages @ [Dict (add_timestamp now message_data)]) d1 of
             (Inl e, d2) \<Rightarrow> (Inl e, d2)
           | (Inr _, d2) \<Rightarrow> (Inr True, d2)))"

definition save_message :: "string \<Rightarrow> pydict \<Rightarrow> string \<Rightarrow> disk \<Rightarrow> (exn + bool) \<times> disk" where
  "save_message now message_data filename d =
     (case save_message_try now message_data filename d of
        (Inl _, d') \<Rightarrow> (Inr False, d')
      | (Inr ok, d') \<Rightarrow> (Inr ok, d'))"

text \<open>
  The comprehension \<^verbatim>\<open>[msg for msg in messages if msg.get("call_id") == call_id]\<close>,
  where \<^verbatim>\<open>call_id\<close> is text.
\<close>

fun call_messages_of :: "string \<Rightarrow> elem list \<Rightarrow> exn + elem list" where
  "call_messages_of call_id [] = Inr []"
| "call_messages_of call_id (msg # messages) =
     (case elem_get msg ''call_id'' FNull of
        Inl e \<Rightarrow> Inl e
      | Inr v \<Rightarrow>
          (case call_messages_of call_id messages of
             Inl e \<Rightarrow> Inl e
           | Inr rest \<Rightarrow> Inr (if v = FStr call_id then msg # rest else rest)))"

definition get_call_history_try :: "string \<Rightarrow> string \<Rightarrow> disk \<Rightarrow> (exn + elem list) \<times> disk" where
  "get_call_history_try call_id filename d =
     (case load_messages filename default_limit d of
        (Inl e, d') \<Rightarrow> (Inl e, d')
      | (Inr messages, d') \<Rightarrow> (call_messages_of call_id messages, d'))"

definition get_call_history :: "string \<Rightarrow> string \<Rightarrow> disk \<Rightarrow> (exn + elem list) \<times> disk" where
  "get_call_history call_id filename d =
     (case get_call_history_try call_id filename d of
        (Inl _, d') \<Rightarrow> (Inr [], d')
      | (Inr call_messages, d') \<Rightarrow> (Inr call_messages, d'))"

section \<open>The request handler: \<^verbatim>\<open>main.py\<close>\<close>

text \<open>The text of the system message, with its line breaks and indentation.\<close>

definition persona :: string where
  "persona =
     [CHR 0x0A] @ ''    You are Instant Alfred, a helpful insurance agent working for insurancemarket.ae''
     @ [CHR 0x0A] @ ''    You are given a conversation history and a new message.''
     @ [CHR 0x0A] @ ''    You need to respond to the new message based on the conversation history.''
     @ [CHR 0x0A] @ ''    You are given the following information:''
     @ [CHR 0x0A] @ ''    - The conversation history''
     @ [CHR 0x0A] @ ''    - The new message''
     @ [CHR 0x0A]
     @ [CHR 0x0A] @ ''    Try to keep the response short and concise and human like with a touch of humor.''
     @ [CHR 0x0A] @ ''    dont indulge in any other conversation except the one related to the insurance.''
     @ [CHR 0x0A] @ ''    ''"

text \<open>
  The constructors \<^verbatim>\<open>HumanMessage(content=v)\<close> and \<^verbatim>\<open>AIMessage(content=v)\<close>
  validate the content: text is accepted, \<^verbatim>\<open>None\<close> is refused.
\<close>

definition human_message :: "field \<Rightarrow> exn + message" where
  "human_message v = (case v of FStr s \<Rightarrow> Inr (HumanMessage s) | FNull \<Rightarrow> Inl ValidationError)"

definition ai_message :: "field \<Rightarrow> exn + message" where
  "ai_message v = (case v of FStr s \<Rightarrow> Inr (AIMessage s) | FNull \<Rightarrow> Inl ValidationError)"

text \<open>One round of the loop over \<^verbatim>\<open>call_messages\<close>: the two entries of one turn.\<close>

definition turn_entries :: "elem \<Rightarrow> exn + message list" where
  "turn_entries json_message =
     (case elem_item json_message ''request'' of
        Inl e \<Rightarrow> Inl e
      | Inr req \<Rightarrow>
          (case human_message req of
             Inl e \<Rightarrow> Inl e
           | Inr h \<Rightarrow>
               (case elem_item json_message ''response'' of
                  Inl e \<Rightarrow> Inl e
                | Inr resp \<Rightarrow>
                    (case ai_message resp of
                       Inl e \<Rightarrow> Inl e
                     | Inr a \<Rightarrow> Inr [h, a]))))"

fun history_entries :: "message list \<Rightarrow> elem list \<Rightarrow> exn + message list" where
  "history_entries langchain_messages [] = Inr langchain_messages"
| "history_entries langchain_messages (json_message # call_messages) =
     (case turn_entries json_message of
        Inl e \<Rightarrow> Inl e
      | Inr two \<Rightarrow> history_entries (langchain_messages @ two) call_messages)"

text \<open>\<^verbatim>\<open>if call_id\<close>: the header is there and is not the empty text.\<close>

definition truthy :: "string option \<Rightarrow> bool" where
  "truthy call_id = (case call_id of None \<Rightarrow> False | Some s \<Rightarrow> s \<noteq> [])"

text \<open>
  The handler up to the call of the completion service: the entries it hands over, and
  the disk after the history was read.
\<close>

definition callflow_messages :: "string option \<Rightarrow> string \<Rightarrow> disk \<Rightarrow> (exn + message list) \<times> disk" where
  "callflow_messages call_id body_text d =
     (case (if truthy call_id then get_call_history (the call_id) messages_json d
            else (Inr [], d)) of
        (Inl e, d') \<Rightarrow> (Inl e, d')
      | (Inr call_messages, d') \<Rightarrow>
          (case history_entries [] call_messages of
             Inl e \<Rightarrow> (Inl e, d')
           | Inr langchain_messages \<Rightarrow>
               (Inr (SystemMessage persona # (langchain_messages @ [HumanMessage body_text])), d')))"

text \<open>
  The whole handler, given the value of the header (or \<open>None\<close>) and the decoded body.
  The completion service \<open>llm\<close> is a parameter: it answers with text or raises.
  \<open>now\<close> is the clock's reading. What \<^verbatim>\<open>save_message\<close> returns is dropped.
\<close>

definition callflow ::
  "(message list \<Rightarrow> exn + string) \<Rightarrow> string \<Rightarrow> string option \<Rightarrow> string \<Rightarrow> disk
     \<Rightarrow> (exn + string) \<times> disk" where
  "callflow llm now call_id body_text d =
     (case callflow_messages call_id body_text d of
        (Inl e, d1) \<Rightarrow> (Inl e, d1)
      | (Inr langchain_messages, d1) \<Rightarrow>
          (case llm langchain_messages of
             Inl e \<Rightarrow> (Inl e, d1)
           | Inr response \<Rightarrow>
               (let message_data =
                      [(''call_id'', (case call_id of None \<Rightarrow> FNull | Some s \<Rightarrow> FStr s)),
                       (''request'', FStr body_text),
                       (''response'', FStr response),
                       (''timestamp'', FStr now)]
                in (Inr response, snd (save_message now message_data messages_json d1)))))"

section \<open>Vocabulary of the properties\<close>

text \<open>The records a file state holds: those of a parsed array, none otherwise.\<close>

definition stored :: "contents \<Rightarrow> elem list" where
  "stored c = (case c of Valid (PList xs) \<Rightarrow> xs | _ \<Rightarrow> [])"

text \<open>A well-formed record: a dictionary whose timestamp, when it has one, is text.\<close>

definition is_record :: "elem \<Rightarrow> bool" where
  "is_record x =
     (case x of Dict d \<Rightarrow> dict_get d ''timestamp'' (FStr '''') \<noteq> FNull | NonDict \<Rightarrow> False)"

definition has_timestamp :: "elem \<Rightarrow> bool" where
  "has_timestamp x = (case x of Dict d \<Rightarrow> map_of d ''timestamp'' \<noteq> None | NonDict \<Rightarrow> False)"

definition call_id_is :: "string \<Rightarrow> elem \<Rightarrow> bool" where
  "call_id_is c x = (case x of Dict d \<Rightarrow> dict_get d ''call_id'' FNull = FStr c | NonDict \<Rightarrow> False)"

text \<open>A turn: a dictionary with a request text and a response text.\<close>

definition is_turn :: "elem \<Rightarrow> bool" where
  "is_turn x =
     (case x of
        Dict d \<Rightarrow>
          (case map_of d ''request'' of
             Some (FStr _) \<Rightarrow> (case map_of d ''response'' of Some (FStr _) \<Rightarrow> True | _ \<Rightarrow> False)
           | _ \<Rightarrow> False)
      | NonDict \<Rightarrow> False)"

definition request_text :: "elem \<Rightarrow> string" where
  "request_text x =
     (case x of Dict d \<Rightarrow> (case map_of d ''request'' of Some (FStr s) \<Rightarrow> s | _ \<Rightarrow> [])
      | NonDict \<Rightarrow> [])"

definition response_text :: "elem \<Rightarrow> string" where
  "response_text x =
     (case x of Dict d \<Rightarrow> (case map_of d ''response'' of Some (FStr s) \<Rightarrow> s | _ \<Rightarrow> [])
      | NonDict \<Rightarrow> [])"

text \<open>The two entries that stand for one turn: what the caller said, what the service replied.\<close>

definition turn_pair :: "elem \<Rightarrow> message list" where
  "turn_pair t = [HumanMessage (request_text t), AIMessage (response_text t)]"

section \<open>Example stores\<close>

text \<open>A record with the four fields that \<^verbatim>\<open>callflow\<close> writes.\<close>

definition turn :: "string \<Rightarrow> string \<Rightarrow> string \<Rightarrow> string \<Rightarrow> pydict" where
  "turn c q a t =
     [(''call_id'', FStr c), (''request'', FStr q), (''response'', FStr a), (''timestamp'', FStr t)]"

definition disk_with :: "elem list \<Rightarrow> disk" where
  "disk_with xs =
     \<lparr>files = (\<lambda>_. Absent)(messages_json := Valid (PList xs)),
      read_denied = False, write_fault = WriteOk\<rparr>"

definition no_file :: disk where
  "no_file = \<lparr>files = (\<lambda>_. Absent), read_denied = False, write_fault = WriteOk\<rparr>"

definition corrupt_disk :: disk where
  "corrupt_disk =
     \<lparr>files = (\<lambda>_. Absent)(messages_json := Invalid), read_denied = False, write_fault = WriteOk\<rparr>"

definition three_turns :: "elem list" where
  "three_turns =
     [Dict (turn ''A'' ''q3'' ''a3'' ''t03''), Dict (turn ''B'' ''q1'' ''a1'' ''t01''),
      Dict (turn ''A'' ''q2'' ''a2'' ''t02'')]"


definition unreadable_disk :: disk where
  "unreadable_disk =
     \<lparr>files = (\<lambda>_. Absent)(messages_json := Valid (PList three_turns)),
      read_denied = True, write_fault = WriteOk\<rparr>"


text \<open>A record without a timestamp, and a store that holds it among stamped ones.\<close>

definition unstamped :: elem where
  "unstamped = Dict [(''call_id'', FNull), (''request'', FStr ''q0''), (''response'', FStr ''a0'')]"

definition four_records :: "elem list" where
  "four_records =
     [Dict (turn ''A'' ''q3'' ''a3'' ''t03''), unstamped, Dict (turn ''B'' ''q1'' ''a1'' ''t01''),
      Dict (turn ''A'' ''q2'' ''a2'' ''t02'')]"

definition eleven_turns :: "elem list" where
  "eleven_turns =
     map (\<lambda>t. Dict (turn ''A'' ''q'' ''a'' t))
       [''t01'', ''t02'', ''t03'', ''t04'', ''t05'', ''t06'', ''t07'', ''t08'', ''t09'',
        ''t10'', ''t11'']"

text \<open>
  Fifteen records: the three of call \<open>C\<close> are the oldest, the twelve of call \<open>B\<close> are
  newer. The file holds them in no particular order.
\<close>

definition fifteen_turns :: "elem list" where
  "fifteen_turns =
     map (\<lambda>t. Dict (turn ''B'' ''q'' ''a'' t)) [''t15'', ''t04'', ''t05'', ''t06'', ''t07'', ''t08'']
     @ map (\<lambda>t. Dict (turn ''C'' ''q'' ''a'' t)) [''t03'', ''t01'', ''t02'']
     @ map (\<lambda>t. Dict (turn ''B'' ''q'' ''a'' t)) [''t09'', ''t10'', ''t11'', ''t12'', ''t13'', ''t14'']"

section \<open>Facts about the store\<close>

subsection \<open>Sorting and slicing\<close>

lemma timestamp_keys_dicts: "timestamp_keys xs = Inr ks \<Longrightarrow> NonDict \<notin> set xs"
  by (induction xs arbitrary: ks) (auto simp: elem_get_def split: elem.splits sum.splits)

lemma sort_by_timestamp_set: "sort_by_timestamp xs = Inr ys \<Longrightarrow> set ys = set xs"
  by (auto simp: sort_by_timestamp_def split: sum.splits if_splits)

lemma sort_by_timestamp_dicts: "sort_by_timestamp xs = Inr ys \<Longrightarrow> NonDict \<notin> set xs"
  by (auto simp: sort_by_timestamp_def split: sum.splits if_splits dest: timestamp_keys_dicts)

lemma slice_from_subset: "set (slice_from s xs) \<subseteq> set xs"
  by (auto simp: slice_from_def dest: in_set_dropD)

lemma timestamp_keys_records:
  "list_all is_record xs \<Longrightarrow> timestamp_keys xs = Inr (map (\<lambda>x. FStr (key_text x)) xs)"
  by (induction xs)
     (auto simp: is_record_def elem_get_def key_text_def split: elem.splits field.splits)

lemma sort_by_timestamp_records:
  "list_all is_record xs \<Longrightarrow> sort_by_timestamp xs = Inr (sort_key key_text xs)"
  by (auto simp: sort_by_timestamp_def timestamp_keys_records)

lemma sort_key_strict:
  assumes "distinct (map f xs)"
  shows "sorted_wrt (<) (map f (sort_key f xs))"
proof -
  from assms have "distinct (map f (sort_key f xs))"
    by (metis distinct_map distinct_sort set_sort inj_on_cong)
  then show ?thesis by (simp add: strict_sorted_iff)
qed

subsection \<open>Writing\<close>

lemma write_json_snd_files:
  "files (snd (write_json fn xs d)) fn =
     (case write_fault d of WriteOk \<Rightarrow> Valid (PList xs) | OpenDenied \<Rightarrow> files d fn
      | WriteInterrupted \<Rightarrow> Invalid)"
  by (simp add: write_json_def split: wfault.splits)

lemma write_json_faults:
  "write_fault (snd (write_json fn xs d)) = write_fault d"
  "read_denied (snd (write_json fn xs d)) = read_denied d"
  by (simp_all add: write_json_def split: wfault.splits)

lemma stored_after_write:
  "set (stored (files (snd (write_json fn xs d)) fn)) \<subseteq> set xs \<union> set (stored (files d fn))"
  by (auto simp: write_json_def stored_def split: wfault.splits)

subsection \<open>Loading\<close>

lemma load_messages_total: "\<exists>ms. fst (load_messages fn l d) = Inr ms"
  by (simp add: load_messages_def split: prod.splits sum.splits exn.splits)

lemma load_messages_snd:
  "snd (load_messages fn l d) = (if files d fn = Absent then snd (write_json fn [] d) else d)"
  by (auto simp: load_messages_def load_messages_try_def
      split: prod.splits sum.splits exn.splits parsed.splits)

lemma load_messages_faults:
  "write_fault (snd (load_messages fn l d)) = write_fault d"
  "read_denied (snd (load_messages fn l d)) = read_denied d"
  by (simp_all add: load_messages_snd write_json_faults)

text \<open>Whatever is loaded is a dictionary of the file.\<close>

lemma load_messages_from_file:
  assumes "fst (load_messages fn l d) = Inr ms"
  shows "set ms \<subseteq> set (stored (files d fn)) \<and> NonDict \<notin> set ms"
proof (cases "\<exists>xs ys. files d fn = Valid (PList xs) \<and> \<not> read_denied d \<and> sort_by_timestamp xs = Inr ys")
  case True
  then obtain xs ys where f: "files d fn = Valid (PList xs)" and r: "\<not> read_denied d"
    and s: "sort_by_timestamp xs = Inr ys" by blast
  from f r s assms have "ms = slice_from (- l) ys \<or> ms = ys"
    by (auto simp: load_messages_def load_messages_try_def read_json_def split: if_splits)
  then have "set ms \<subseteq> set ys" using slice_from_subset[of "- l" ys] by auto
  with sort_by_timestamp_set[OF s] sort_by_timestamp_dicts[OF s] f show ?thesis
    by (auto simp: stored_def)
next
  case False
  with assms have "ms = []"
    by (auto simp: load_messages_def load_messages_try_def read_json_def write_json_def
        split: if_splits contents.splits parsed.splits sum.splits wfault.splits exn.splits)
  then show ?thesis by simp
qed

lemma load_messages_records:
  assumes "files d fn = Valid (PList xs)" "\<not> read_denied d" "list_all is_record xs"
  shows "load_messages fn l d =
           (Inr (if int (length xs) > l then slice_from (- l) (sort_key key_text xs)
                 else sort_key key_text xs), d)"
  using assms
  by (simp add: load_messages_def load_messages_try_def read_json_def sort_by_timestamp_records)


lemma stored_after_load:
  "set (stored (files (snd (load_messages fn l d)) fn)) \<subseteq> set (stored (files d fn))"
  using stored_after_write[of fn "[]" d] by (auto simp: load_messages_snd)

subsection \<open>Saving\<close>

lemma has_timestamp_add: "has_timestamp (Dict (add_timestamp now r))"
  by (auto simp: has_timestamp_def add_timestamp_def map_add_def)

lemma save_message_eq:
  assumes "fst (load_messages fn default_limit d) = Inr ms"
  shows "save_message now r fn d =
     (Inr (write_fault d = WriteOk),
      snd (write_json fn (ms @ [Dict (add_timestamp now r)]) (snd (load_messages fn default_limit d))))"
proof -
  obtain d1 where l: "load_messages fn default_limit d = (Inr ms, d1)"
    using assms by (cases "load_messages fn default_limit d") simp
  have "write_fault d1 = write_fault d"
    using load_messages_faults(1)[of fn default_limit d] l by simp
  with l show ?thesis
    by (simp add: save_message_def save_message_try_def write_json_def split: wfault.splits)
qed


lemma stored_after_save:
  "set (stored (files (snd (save_message now r fn d)) fn))
     \<subseteq> insert (Dict (add_timestamp now r)) (set (stored (files d fn)))"
proof -
  obtain ms where ms: "fst (load_messages fn default_limit d) = Inr ms"
    using load_messages_total by blast
  have "set ms \<subseteq> set (stored (files d fn))" using load_messages_from_file[OF ms] by simp
  with stored_after_write[of fn "ms @ [Dict (add_timestamp now r)]" "snd (load_messages fn default_limit d)"]
    stored_after_load[of fn default_limit d]
  show ?thesis by (auto simp: save_message_eq[OF ms])
qed

subsection \<open>The history of a call\<close>

lemma call_messages_of_dicts:
  "NonDict \<notin> set ms \<Longrightarrow> call_messages_of c ms = Inr (filter (call_id_is c) ms)"
  by (induction ms) (auto simp: elem_get_def call_id_is_def split: elem.splits)

lemma get_call_history_eq:
  "get_call_history c fn d =
     (case load_messages fn default_limit d of
        (Inr ms, d') \<Rightarrow> (Inr (filter (call_id_is c) ms), d')
      | (Inl e, d') \<Rightarrow> (Inr [], d'))"
proof (cases "load_messages fn default_limit d")
  case (Pair r d')
  show ?thesis
  proof (cases r)
    case (Inl e)
    with Pair show ?thesis by (simp add: get_call_history_def get_call_history_try_def)
  next
    case (Inr ms)
    with Pair have "fst (load_messages fn default_limit d) = Inr ms" by simp
    then have "NonDict \<notin> set ms" using load_messages_from_file by blast
    with Pair Inr show ?thesis
      by (simp add: get_call_history_def get_call_history_try_def call_messages_of_dicts)
  qed
qed

subsection \<open>The entries of the handler\<close>

lemma turn_entries_turn: "is_turn t \<Longrightarrow> turn_entries t = Inr (turn_pair t)"
  by (auto simp: is_turn_def turn_entries_def turn_pair_def elem_item_def human_message_def
      ai_message_def request_text_def response_text_def
      split: elem.splits option.splits field.splits)

lemma history_entries_turns:
  "list_all is_turn ts \<Longrightarrow> history_entries acc ts = Inr (acc @ concat (map turn_pair ts))"
  by (induction ts arbitrary: acc) (simp_all add: turn_entries_turn)

lemma length_concat_turn_pairs: "length (concat (map turn_pair ts)) = 2 * length ts"
  by (induction ts) (simp_all add: turn_pair_def)

lemma callflow_fst:
  "fst (callflow_messages call_id b d) = Inr entries \<Longrightarrow>
   fst (callflow llm now call_id b d) = llm entries"
  by (cases "callflow_messages call_id b d")
     (auto simp: callflow_def Let_def split: sum.splits)

lemmas example_defs =
  disk_with_def three_turns_def four_records_def unstamped_def turn_def is_record_def
  dict_get_def key_text_def

section \<open>The claims\<close>

text \<open>
  Claim C1 says that \<^verbatim>\<open>save_message\<close> keeps the whole history: a file with N records
  holds N+1 records afterwards and loses none. The code reads the history with
  \<^verbatim>\<open>load_messages(filename)\<close>, that is with the default limit of 10, and writes back
  only what was read. Evaluated on a file with eleven records: the call succeeds, the
  file holds eleven records again, and the oldest record is gone.
\<close>

theorem save_message_truncates_history:
  "save_message ''t12'' (turn ''A'' ''q'' ''a'' ''t12'') messages_json (disk_with eleven_turns)
     = (Inr True, disk_with (tl eleven_turns @ [Dict (turn ''A'' ''q'' ''a'' ''t12'')]))
   \<and> length eleven_turns = 11
   \<and> length (tl eleven_turns @ [Dict (turn ''A'' ''q'' ''a'' ''t12'')]) = 11
   \<and> hd eleven_turns = Dict (turn ''A'' ''q'' ''a'' ''t01'')
   \<and> Dict (turn ''A'' ''q'' ''a'' ''t01'') \<notin> set (tl eleven_turns @ [Dict (turn ''A'' ''q'' ''a'' ''t12'')])"
  by (simp add: save_message_def save_message_try_def load_messages_def load_messages_try_def
      read_json_def write_json_def sort_by_timestamp_def elem_get_def dict_get_def key_text_def
      slice_from_def add_timestamp_def default_limit_def disk_with_def eleven_turns_def turn_def
      messages_json_def)

text \<open>
  Claim C2: for a readable file that holds N well-formed records with distinct timestamps
  (a missing timestamp counts as the empty text) and a limit K of at least 1,
  \<^verbatim>\<open>load_messages\<close> returns the last min(N, K) records of the records sorted ascending
  by timestamp, in that order, and leaves the disk as it was. The sorted sequence is a
  rearrangement of the file's records and strictly ascending.
\<close>

theorem load_messages_last_k:
  assumes "files d filename = Valid (PList xs)" and "\<not> read_denied d"
    and "list_all is_record xs" and "distinct (map key_text xs)" and "1 \<le> K"
  shows "load_messages filename K d =
           (Inr (drop (length xs - min (length xs) (nat K)) (sort_key key_text xs)), d)
         \<and> length (drop (length xs - min (length xs) (nat K)) (sort_key key_text xs))
             = min (length xs) (nat K)
         \<and> mset (sort_key key_text xs) = mset xs
         \<and> sorted_wrt (<) (map key_text (sort_key key_text xs))"
proof -
  have "load_messages filename K d =
          (Inr (drop (length xs - min (length xs) (nat K)) (sort_key key_text xs)), d)"
  proof (cases "int (length xs) > K")
    case True
    with assms(5) have "nat (int (length xs) - K) = length xs - min (length xs) (nat K)"
      by linarith
    with True assms show ?thesis
      by (simp add: load_messages_records slice_from_def)
  next
    case False
    then have "length xs - min (length xs) (nat K) = 0" by linarith
    with False assms show ?thesis
      by (simp add: load_messages_records)
  qed
  moreover have "length (drop (length xs - min (length xs) (nat K)) (sort_key key_text xs))
                   = min (length xs) (nat K)"
    by simp
  ultimately show ?thesis using assms(4) by (simp add: sort_key_strict)
qed

theorem load_messages_last_k_witness:
  "files (disk_with four_records) messages_json = Valid (PList four_records)
   \<and> \<not> read_denied (disk_with four_records)
   \<and> list_all is_record four_records
   \<and> distinct (map key_text four_records)
   \<and> sort_key key_text four_records
       = [unstamped, Dict (turn ''B'' ''q1'' ''a1'' ''t01''), Dict (turn ''A'' ''q2'' ''a2'' ''t02''),
          Dict (turn ''A'' ''q3'' ''a3'' ''t03'')]
   \<and> load_messages messages_json 3 (disk_with four_records)
       = (Inr [Dict (turn ''B'' ''q1'' ''a1'' ''t01''), Dict (turn ''A'' ''q2'' ''a2'' ''t02''),
               Dict (turn ''A'' ''q3'' ''a3'' ''t03'')],
          disk_with four_records)"
proof -
  have h1: "files (disk_with four_records) messages_json = Valid (PList four_records)"
    by (simp add: disk_with_def)
  have h2: "\<not> read_denied (disk_with four_records)" by (simp add: disk_with_def)
  have h3: "list_all is_record four_records" by (simp add: example_defs)
  have h4: "distinct (map key_text four_records)" by (simp add: example_defs)
  have h5: "(1::int) \<le> 3" by simp
  have s: "sort_key key_text four_records
             = [unstamped, Dict (turn ''B'' ''q1'' ''a1'' ''t01''),
                Dict (turn ''A'' ''q2'' ''a2'' ''t02''), Dict (turn ''A'' ''q3'' ''a3'' ''t03'')]"
    by (simp add: four_records_def unstamped_def turn_def dict_get_def key_text_def)
  have n: "length four_records = 4" by (simp add: four_records_def)
  from load_messages_last_k[OF h1 h2 h3 h4 h5] h1 h2 h3 h4 s n show ?thesis by simp
qed

text \<open>
  Claim C3: for every disk and every call identifier c, \<^verbatim>\<open>get_call_history\<close> returns
  the records whose \<^verbatim>\<open>call_id\<close> is c among those that \<^verbatim>\<open>load_messages\<close> returns
  with the default limit of 10. In particular, when a readable file holds more than ten
  well-formed records (fifteen, say) and every record of call c is older than each of the
  ten most recent ones, the history of c is empty.
\<close>

theorem get_call_history_limit_then_filter:
  "(\<exists>ms. fst (load_messages filename default_limit d) = Inr ms
         \<and> fst (get_call_history c filename d) = Inr (filter (call_id_is c) ms))
   \<and> (files d filename = Valid (PList xs) \<and> \<not> read_denied d \<and> list_all is_record xs
        \<and> 10 < length xs
        \<and> (\<forall>m\<in>set xs. call_id_is c m \<longrightarrow>
              (\<forall>x\<in>set (drop (length xs - 10) (sort_key key_text xs)). key_text m < key_text x))
       \<longrightarrow> fst (get_call_history c filename d) = Inr [])"
proof (intro conjI impI)
  obtain ms where ms: "fst (load_messages filename default_limit d) = Inr ms"
    using load_messages_total by blast
  then have "fst (get_call_history c filename d) = Inr (filter (call_id_is c) ms)"
    by (cases "load_messages filename default_limit d") (simp add: get_call_history_eq)
  with ms show "\<exists>ms. fst (load_messages filename default_limit d) = Inr ms
         \<and> fst (get_call_history c filename d) = Inr (filter (call_id_is c) ms)"
    by blast
next
  assume a: "files d filename = Valid (PList xs) \<and> \<not> read_denied d \<and> list_all is_record xs
        \<and> 10 < length xs
        \<and> (\<forall>m\<in>set xs. call_id_is c m \<longrightarrow>
              (\<forall>x\<in>set (drop (length xs - 10) (sort_key key_text xs)). key_text m < key_text x))"
  let ?recent = "drop (length xs - 10) (sort_key key_text xs)"
  from a have "nat (int (length xs) - 10) = length xs - 10" by linarith
  with a have l: "load_messages filename default_limit d = (Inr ?recent, d)"
    by (simp add: load_messages_records slice_from_def default_limit_def)
  have "\<not> call_id_is c m" if "m \<in> set ?recent" for m
  proof
    assume c: "call_id_is c m"
    from that have "m \<in> set xs" by (auto dest: in_set_dropD)
    with a c that have "key_text m < key_text m" by blast
    then show False by simp
  qed
  then have "filter (call_id_is c) ?recent = []" by (simp add: filter_empty_conv)
  with l show "fst (get_call_history c filename d) = Inr []"
    by (simp add: get_call_history_eq)
qed

theorem get_call_history_limit_then_filter_witness:
  "length fifteen_turns = 15
   \<and> filter (call_id_is ''C'') fifteen_turns
       = map (\<lambda>t. Dict (turn ''C'' ''q'' ''a'' t)) [''t03'', ''t01'', ''t02'']
   \<and> drop (length fifteen_turns - 10) (sort_key key_text fifteen_turns)
       = map (\<lambda>t. Dict (turn ''B'' ''q'' ''a'' t))
           [''t06'', ''t07'', ''t08'', ''t09'', ''t10'', ''t11'', ''t12'', ''t13'', ''t14'', ''t15'']
   \<and> fst (get_call_history ''C'' messages_json (disk_with fifteen_turns)) = Inr []"
proof -
  have h1: "files (disk_with fifteen_turns) messages_json = Valid (PList fifteen_turns)"
    by (simp add: disk_with_def)
  have h2: "\<not> read_denied (disk_with fifteen_turns)" by (simp add: disk_with_def)
  have h3: "list_all is_record fifteen_turns"
    by (simp add: fifteen_turns_def turn_def is_record_def dict_get_def)
  have h4: "length fifteen_turns = 15" by (simp add: fifteen_turns_def)
  have h5: "filter (call_id_is ''C'') fifteen_turns
              = map (\<lambda>t. Dict (turn ''C'' ''q'' ''a'' t)) [''t03'', ''t01'', ''t02'']"
    by (simp add: fifteen_turns_def turn_def call_id_is_def dict_get_def)
  have h6: "drop (length fifteen_turns - 10) (sort_key key_text fifteen_turns)
              = map (\<lambda>t. Dict (turn ''B'' ''q'' ''a'' t))
                  [''t06'', ''t07'', ''t08'', ''t09'', ''t10'', ''t11'', ''t12'', ''t13'', ''t14'', ''t15'']"
    by (simp add: fifteen_turns_def turn_def dict_get_def key_text_def)
  have h7: "\<forall>m\<in>set fifteen_turns. call_id_is ''C'' m \<longrightarrow>
        (\<forall>x\<in>set (drop (length fifteen_turns - 10) (sort_key key_text fifteen_turns)).
            key_text m < key_text x)"
    unfolding h6 by (simp add: fifteen_turns_def turn_def call_id_is_def dict_get_def key_text_def)
  from get_call_history_limit_then_filter[of messages_json "disk_with fifteen_turns" "''C''" fifteen_turns]
    h1 h2 h3 h4 h7
  have "fst (get_call_history ''C'' messages_json (disk_with fifteen_turns)) = Inr []" by simp
  with h4 h5 h6 show ?thesis by (intro conjI)
qed

text \<open>
  Claim C4: when the request carries a call identifier c that is not empty and the history
  of c consists of k turns, the completion service receives 2k+2 entries: the system
  message with the persona, then for each turn in the order of the history a human entry
  with its request and an assistant entry with its response, then a human entry with the
  body of the request. What the handler returns is what the service answers to exactly
  these entries.
\<close>

theorem callflow_entries_with_history:
  assumes "c \<noteq> []"
    and "fst (get_call_history c messages_json d) = Inr turns"
    and "list_all is_turn turns"
  shows "fst (callflow_messages (Some c) b d) =
           Inr (SystemMessage persona # concat (map turn_pair turns) @ [HumanMessage b])
         \<and> length (SystemMessage persona # concat (map turn_pair turns) @ [HumanMessage b])
             = 2 * length turns + 2
         \<and> fst (callflow llm now (Some c) b d) =
             llm (SystemMessage persona # concat (map turn_pair turns) @ [HumanMessage b])"
proof -
  from assms have e: "fst (callflow_messages (Some c) b d) =
           Inr (SystemMessage persona # concat (map turn_pair turns) @ [HumanMessage b])"
    by (cases "get_call_history c messages_json d")
       (simp add: callflow_messages_def truthy_def history_entries_turns)
  from callflow_fst[OF e] e show ?thesis by (simp add: length_concat_turn_pairs)
qed

theorem callflow_entries_with_history_witness:
  "''A'' \<noteq> []
   \<and> fst (get_call_history ''A'' messages_json (disk_with three_turns))
       = Inr [Dict (turn ''A'' ''q2'' ''a2'' ''t02''), Dict (turn ''A'' ''q3'' ''a3'' ''t03'')]
   \<and> list_all is_turn [Dict (turn ''A'' ''q2'' ''a2'' ''t02''), Dict (turn ''A'' ''q3'' ''a3'' ''t03'')]
   \<and> fst (callflow_messages (Some ''A'') ''hello'' (disk_with three_turns))
       = Inr [SystemMessage persona, HumanMessage ''q2'', AIMessage ''a2'', HumanMessage ''q3'',
              AIMessage ''a3'', HumanMessage ''hello'']"
proof -
  have h1: "''A'' \<noteq> []" by simp
  have l: "load_messages messages_json default_limit (disk_with three_turns)
             = (Inr [Dict (turn ''B'' ''q1'' ''a1'' ''t01''), Dict (turn ''A'' ''q2'' ''a2'' ''t02''),
                     Dict (turn ''A'' ''q3'' ''a3'' ''t03'')], disk_with three_turns)"
    by (simp add: load_messages_def load_messages_try_def read_json_def sort_by_timestamp_def
        elem_get_def default_limit_def example_defs)
  have h2: "fst (get_call_history ''A'' messages_json (disk_with three_turns))
       = Inr [Dict (turn ''A'' ''q2'' ''a2'' ''t02''), Dict (turn ''A'' ''q3'' ''a3'' ''t03'')]"
    by (simp add: get_call_history_def get_call_history_try_def l)
       (simp add: turn_def elem_get_def dict_get_def)
  have h3: "list_all is_turn [Dict (turn ''A'' ''q2'' ''a2'' ''t02''), Dict (turn ''A'' ''q3'' ''a3'' ''t03'')]"
    by (simp add: is_turn_def turn_def)
  have s: "concat (map turn_pair [Dict (turn ''A'' ''q2'' ''a2'' ''t02''), Dict (turn ''A'' ''q3'' ''a3'' ''t03'')])
             = [HumanMessage ''q2'', AIMessage ''a2'', HumanMessage ''q3'', AIMessage ''a3'']"
    by (simp add: turn_pair_def request_text_def response_text_def turn_def)
  from callflow_entries_with_history[OF h1 h2 h3, of "''hello''"] h1 h2 h3 s
  show ?thesis by simp
qed

text \<open>
  Claim C5: when the file does not exist, \<^verbatim>\<open>load_messages\<close> returns the empty list
  and raises nothing; when the file system accepts the write, the file then exists and
  holds the empty array; and a second \<^verbatim>\<open>load_messages\<close> on the disk the first one
  left returns the empty list again and changes nothing.
\<close>

theorem load_messages_missing_file:
  assumes "files d filename = Absent"
  shows "fst (load_messages filename limit d) = Inr []
         \<and> (write_fault d = WriteOk \<longrightarrow>
              snd (load_messages filename limit d)
                = d\<lparr>files := (files d)(filename := Valid (PList []))\<rparr>)
         \<and> load_messages filename limit' (snd (load_messages filename limit d))
             = (Inr [], snd (load_messages filename limit d))"
  using assms
  by (auto simp: load_messages_def load_messages_try_def write_json_def read_json_def
      sort_by_timestamp_def slice_from_def split: wfault.splits)

theorem load_messages_missing_file_witness:
  "files no_file messages_json = Absent
   \<and> write_fault no_file = WriteOk
   \<and> load_messages messages_json 10 no_file = (Inr [], disk_with [])
   \<and> load_messages messages_json 10 (disk_with []) = (Inr [], disk_with [])"
proof -
  have h1: "files no_file messages_json = Absent" by (simp add: no_file_def)
  have h2: "write_fault no_file = WriteOk" by (simp add: no_file_def)
  have e: "no_file\<lparr>files := (files no_file)(messages_json := Valid (PList []))\<rparr> = disk_with []"
    by (simp add: no_file_def disk_with_def)
  from load_messages_missing_file[where limit = 10 and limit' = 10, OF h1] h1 h2 e
  show ?thesis by (cases "load_messages messages_json 10 no_file") simp
qed

text \<open>
  Claim C6: \<^verbatim>\<open>load_messages\<close> never raises: on every disk it returns a list. When the
  file's content is not valid JSON, or when reading is refused, the list is empty; a file
  with invalid content is left as it is.
\<close>

theorem load_messages_never_raises:
  "(\<exists>ms. fst (load_messages filename limit d) = Inr ms)
   \<and> (files d filename = Invalid \<or> read_denied d \<longrightarrow>
        fst (load_messages filename limit d) = Inr [])
   \<and> (files d filename = Invalid \<longrightarrow> snd (load_messages filename limit d) = d)"
proof (intro conjI impI)
  show "\<exists>ms. fst (load_messages filename limit d) = Inr ms" by (rule load_messages_total)
next
  assume "files d filename = Invalid \<or> read_denied d"
  then show "fst (load_messages filename limit d) = Inr []"
    by (auto simp: load_messages_def load_messages_try_def write_json_def read_json_def
        split: wfault.splits)
next
  assume "files d filename = Invalid"
  then show "snd (load_messages filename limit d) = d" by (simp add: load_messages_snd)
qed

theorem load_messages_never_raises_witness:
  "files corrupt_disk messages_json = Invalid
   \<and> load_messages messages_json 10 corrupt_disk = (Inr [], corrupt_disk)
   \<and> read_denied unreadable_disk
   \<and> fst (load_messages messages_json 10 unreadable_disk) = Inr []"
proof -
  have h1: "files corrupt_disk messages_json = Invalid" by (simp add: corrupt_disk_def)
  have h2: "read_denied unreadable_disk" by (simp add: unreadable_disk_def)
  from load_messages_never_raises[of messages_json 10 corrupt_disk] h1
  have c: "load_messages messages_json 10 corrupt_disk = (Inr [], corrupt_disk)"
    by (cases "load_messages messages_json 10 corrupt_disk") simp
  from load_messages_never_raises[of messages_json 10 unreadable_disk] h2
  have u: "fst (load_messages messages_json 10 unreadable_disk) = Inr []" by simp
  show ?thesis by (intro conjI h1 c h2 u)
qed

text \<open>
  Claim C7: the record that \<^verbatim>\<open>save_message\<close> writes always has a timestamp: a record
  without one gets the clock's reading, a record with one is written unchanged. After a
  successful call the file holds the loaded records followed by that record. So when every
  record of the file had a timestamp before the call, every record of the file has one
  after it, and so has every record that \<^verbatim>\<open>load_messages\<close> then returns.
\<close>

theorem save_message_backfills_timestamp:
  "has_timestamp (Dict (add_timestamp now r))
   \<and> (map_of r ''timestamp'' = None \<longrightarrow> add_timestamp now r = r @ [(''timestamp'', FStr now)])
   \<and> (map_of r ''timestamp'' \<noteq> None \<longrightarrow> add_timestamp now r = r)
   \<and> (fst (save_message now r filename d) = Inr True \<longrightarrow>
        (\<exists>ms. fst (load_messages filename default_limit d) = Inr ms
            \<and> files (snd (save_message now r filename d)) filename
                = Valid (PList (ms @ [Dict (add_timestamp now r)]))))
   \<and> (list_all has_timestamp (stored (files d filename)) \<longrightarrow>
        list_all has_timestamp (stored (files (snd (save_message now r filename d)) filename))
        \<and> (\<forall>limit ms. fst (load_messages filename limit (snd (save_message now r filename d))) = Inr ms
              \<longrightarrow> list_all has_timestamp ms))"
proof (intro conjI impI allI)
  show "has_timestamp (Dict (add_timestamp now r))" by (rule has_timestamp_add)
next
  assume "map_of r ''timestamp'' = None"
  then show "add_timestamp now r = r @ [(''timestamp'', FStr now)]" by (simp add: add_timestamp_def)
next
  assume "map_of r ''timestamp'' \<noteq> None"
  then show "add_timestamp now r = r" by (simp add: add_timestamp_def)
next
  assume t: "fst (save_message now r filename d) = Inr True"
  obtain ms where ms: "fst (load_messages filename default_limit d) = Inr ms"
    using load_messages_total by blast
  from t have "write_fault d = WriteOk" by (simp add: save_message_eq[OF ms])
  then have "files (snd (save_message now r filename d)) filename
                = Valid (PList (ms @ [Dict (add_timestamp now r)]))"
    by (simp add: save_message_eq[OF ms] write_json_snd_files load_messages_faults)
  with ms show "\<exists>ms. fst (load_messages filename default_limit d) = Inr ms
            \<and> files (snd (save_message now r filename d)) filename
                = Valid (PList (ms @ [Dict (add_timestamp now r)]))"
    by blast
next
  assume i: "list_all has_timestamp (stored (files d filename))"
  with stored_after_save[of now r filename d] has_timestamp_add[of now r]
  show s: "list_all has_timestamp (stored (files (snd (save_message now r filename d)) filename))"
    by (auto simp: list_all_iff)
  fix limit ms
  assume "fst (load_messages filename limit (snd (save_message now r filename d))) = Inr ms"
  from load_messages_from_file[OF this] s show "list_all has_timestamp ms"
    by (auto simp: list_all_iff)
qed

theorem save_message_backfills_timestamp_witness:
  "map_of [(''call_id'', FStr ''A''), (''request'', FStr ''hi''), (''response'', FStr ''hello'')]
      ''timestamp'' = None
   \<and> list_all has_timestamp (stored (files no_file messages_json))
   \<and> save_message ''2024-05-01T10:00:00''
        [(''call_id'', FStr ''A''), (''request'', FStr ''hi''), (''response'', FStr ''hello'')]
        messages_json no_file
       = (Inr True, disk_with [Dict (turn ''A'' ''hi'' ''hello'' ''2024-05-01T10:00:00'')])
   \<and> load_messages messages_json 1
        (disk_with [Dict (turn ''A'' ''hi'' ''hello'' ''2024-05-01T10:00:00'')])
       = (Inr [Dict (turn ''A'' ''hi'' ''hello'' ''2024-05-01T10:00:00'')],
          disk_with [Dict (turn ''A'' ''hi'' ''hello'' ''2024-05-01T10:00:00'')])
   \<and> has_timestamp (Dict (turn ''A'' ''hi'' ''hello'' ''2024-05-01T10:00:00''))"
proof -
  let ?r = "[(''call_id'', FStr ''A''), (''request'', FStr ''hi''), (''response'', FStr ''hello'')]"
  let ?now = "''2024-05-01T10:00:00''"
  have h1: "map_of ?r ''timestamp'' = None" by simp
  have h2: "list_all has_timestamp (stored (files no_file messages_json))"
    by (simp add: no_file_def stored_def)
  have s: "save_message ?now ?r messages_json no_file
             = (Inr True, disk_with [Dict (turn ''A'' ''hi'' ''hello'' ?now)])"
    by (simp add: save_message_def save_message_try_def load_messages_def load_messages_try_def
        write_json_def add_timestamp_def default_limit_def no_file_def disk_with_def turn_def)
  have l: "load_messages messages_json 1 (disk_with [Dict (turn ''A'' ''hi'' ''hello'' ?now)])
             = (Inr [Dict (turn ''A'' ''hi'' ''hello'' ?now)],
                disk_with [Dict (turn ''A'' ''hi'' ''hello'' ?now)])"
    by (simp add: load_messages_def load_messages_try_def read_json_def sort_by_timestamp_def
        elem_get_def dict_get_def disk_with_def turn_def)
  from save_message_backfills_timestamp[of ?now ?r messages_json no_file] h2
  have "\<forall>limit ms. fst (load_messages messages_json limit
                            (snd (save_message ?now ?r messages_json no_file))) = Inr ms
          \<longrightarrow> list_all has_timestamp ms"
    by blast
  then have "fst (load_messages messages_json 1 (snd (save_message ?now ?r messages_json no_file)))
               = Inr [Dict (turn ''A'' ''hi'' ''hello'' ?now)]
             \<longrightarrow> list_all has_timestamp [Dict (turn ''A'' ''hi'' ''hello'' ?now)]"
    by blast
  with s l have t: "has_timestamp (Dict (turn ''A'' ''hi'' ''hello'' ?now))" by simp
  show ?thesis by (intro conjI h1 h2 s l t)
qed





text \<open>
  Claim C9: when the request carries no call identifier, or an empty one, the handler
  does not touch the store before it calls the completion service, and the service
  receives exactly two entries: the system message with the persona and a human entry
  with the body of the request.
\<close>

theorem callflow_entries_without_call_id:
  assumes "call_id = None \<or> call_id = Some []"
  shows "callflow_messages call_id b d = (Inr [SystemMessage persona, HumanMessage b], d)
         \<and> fst (callflow llm now call_id b d) = llm [SystemMessage persona, HumanMessage b]"
proof -
  from assms have e: "callflow_messages call_id b d = (Inr [SystemMessage persona, HumanMessage b], d)"
    by (auto simp: callflow_messages_def truthy_def)
  then have "fst (callflow_messages call_id b d) = Inr [SystemMessage persona, HumanMessage b]"
    by simp
  from callflow_fst[OF this] e show ?thesis by simp
qed

theorem callflow_entries_without_call_id_witness:
  "callflow_messages None ''hello'' (disk_with three_turns)
     = (Inr [SystemMessage persona, HumanMessage ''hello''], disk_with three_turns)
   \<and> callflow_messages (Some []) ''hello'' (disk_with three_turns)
     = (Inr [SystemMessage persona, HumanMessage ''hello''], disk_with three_turns)"
proof -
  have h1: "(None :: string option) = None \<or> (None :: string option) = Some []" by simp
  have h2: "Some ([] :: string) = None \<or> Some ([] :: string) = Some []" by simp
  from callflow_entries_without_call_id[OF h1] callflow_entries_without_call_id[OF h2]
  show ?thesis by simp
qed

text \<open>
  Claim C10: for a readable file that holds at least one record, all records well-formed,
  \<^verbatim>\<open>load_messages\<close> with limit 0 returns all the records, sorted by timestamp, and not
  the empty list: the length exceeds the limit, and the slice \<^verbatim>\<open>all_messages[-0:]\<close> is
  the whole list.
\<close>

theorem load_messages_limit_zero:
  assumes "files d filename = Valid (PList xs)" and "\<not> read_denied d"
    and "list_all is_record xs" and "1 \<le> length xs"
  shows "load_messages filename 0 d = (Inr (sort_key key_text xs), d)
         \<and> length (sort_key key_text xs) = length xs
         \<and> mset (sort_key key_text xs) = mset xs"
  using assms by (simp add: load_messages_records slice_from_def)

theorem load_messages_limit_zero_witness:
  "files (disk_with three_turns) messages_json = Valid (PList three_turns)
   \<and> \<not> read_denied (disk_with three_turns)
   \<and> list_all is_record three_turns
   \<and> 1 \<le> length three_turns
   \<and> load_messages messages_json 0 (disk_with three_turns)
       = (Inr [Dict (turn ''B'' ''q1'' ''a1'' ''t01''), Dict (turn ''A'' ''q2'' ''a2'' ''t02''),
               Dict (turn ''A'' ''q3'' ''a3'' ''t03'')],
          disk_with three_turns)"
proof -
  have h1: "files (disk_with three_turns) messages_json = Valid (PList three_turns)"
    by (simp add: disk_with_def)
  have h2: "\<not> read_denied (disk_with three_turns)" by (simp add: disk_with_def)
  have h3: "list_all is_record three_turns" by (simp add: example_defs)
  have h4: "1 \<le> length three_turns" by (simp add: three_turns_def)
  have s: "sort_key key_text three_turns
             = [Dict (turn ''B'' ''q1'' ''a1'' ''t01''), Dict (turn ''A'' ''q2'' ''a2'' ''t02''),
                Dict (turn ''A'' ''q3'' ''a3'' ''t03'')]"
    by (simp add: three_turns_def turn_def dict_get_def key_text_def)
  from load_messages_limit_zero[OF h1 h2 h3 h4] h1 h2 h3 h4 s show ?thesis by simp
qed

end
